theory Spec2Isabelle
  imports Main "HOL-Library.Sublist"
begin

section \<open>Python values and exceptions\<close>

text \<open>
  Strings are lists of 8-bit characters (code points below 256). Every exception that a
  modelled function can raise is a value of \<open>error\<close>; a function that can raise returns
  \<open>error + 'a\<close>, with \<open>Inl\<close> for the exception.
\<close>

datatype error =
    ValueError string
  | KeyError string
  | AttributeError string
  | TypeError string
  | ValidationError string
  | JSONDecodeError
  | HTTPStatusError nat string
  | OtherException string

definition sbind :: "error + 'a \<Rightarrow> ('a \<Rightarrow> error + 'b) \<Rightarrow> error + 'b" where
  "sbind m f = (case m of Inl e \<Rightarrow> Inl e | Inr v \<Rightarrow> f v)"

section \<open>urllib.parse.urlparse\<close>

text \<open>
  \<open>parse_azure_devops_url\<close> starts with the standard library's \<open>urlparse\<close>. The model
  follows CPython 3.12's \<open>urllib/parse.py\<close> (\<open>urlsplit\<close>, \<open>_splitnetloc\<close>, \<open>_splitparams\<close>,
  \<open>urlparse\<close>) with the default arguments \<open>scheme=''\<close> and \<open>allow_fragments=True\<close>.
  Two checks of \<open>urlsplit\<close> depend on other modules (\<open>ipaddress\<close>, \<open>unicodedata\<close>) and on
  the library version; they are parameters:
  \<^item> \<open>check_bracketed_netloc\<close>: called when the netloc holds both brackets; \<open>Some m\<close> stands
    for \<open>raise ValueError(m)\<close>;
  \<^item> \<open>nfkc_invalid\<close>: the test of \<open>_checknetloc\<close>, consulted for a non-empty netloc with a
    non-ASCII character.
\<close>

record urllib =
  check_bracketed_netloc :: "string \<Rightarrow> string option"
  nfkc_invalid :: "string \<Rightarrow> bool"

record ParseResult =
  scheme :: string
  netloc :: string
  path :: string
  params :: string
  query :: string
  fragment :: string

definition scheme_chars :: string where
  "scheme_chars =
     ''abcdefghijklmnopqrstuvwxyz'' @ ''ABCDEFGHIJKLMNOPQRSTUVWXYZ'' @ ''0123456789'' @ ''+-.''"

definition uses_params :: "string list" where
  "uses_params = ['''', ''ftp'', ''hdl'', ''prospero'', ''http'', ''imap'',
                  ''https'', ''shttp'', ''rtsp'', ''rtsps'', ''rtspu'', ''sip'',
                  ''sips'', ''mms'', ''sftp'', ''tel'']"

definition is_c0_control_or_space :: "char \<Rightarrow> bool" where
  "is_c0_control_or_space c = ((of_char c :: nat) \<le> 32)"

definition is_unsafe_url_byte :: "char \<Rightarrow> bool" where
  "is_unsafe_url_byte c = (c = CHR 0x09 \<or> c = CHR 0x0D \<or> c = CHR 0x0A)"

definition isascii :: "char \<Rightarrow> bool" where
  "isascii c = ((of_char c :: nat) < 128)"

definition is_ascii_alpha :: "char \<Rightarrow> bool" where
  "is_ascii_alpha c =
     (c \<in> set (''abcdefghijklmnopqrstuvwxyz'' @ ''ABCDEFGHIJKLMNOPQRSTUVWXYZ''))"

definition lower_char :: "char \<Rightarrow> char" where
  "lower_char c =
     (case map_of (zip ''ABCDEFGHIJKLMNOPQRSTUVWXYZ'' ''abcdefghijklmnopqrstuvwxyz'') c of
        Some l \<Rightarrow> l | None \<Rightarrow> c)"

text \<open>\<open>s.find(c)\<close> as an option: the index of the first occurrence, if any.\<close>

definition find_char :: "char \<Rightarrow> string \<Rightarrow> nat option" where
  "find_char c s = (if c \<in> set s then Some (length (takeWhile (\<lambda>x. x \<noteq> c) s)) else None)"

text \<open>
  \<open>_splitnetloc(url, 2)\<close>: the netloc runs from index 2 to the first of \<open>/\<close>, \<open>?\<close>, \<open>#\<close>
  (or to the end); the rest starts at that delimiter.
\<close>

definition is_netloc_delim :: "char \<Rightarrow> bool" where
  "is_netloc_delim c = (c = CHR ''/'' \<or> c = CHR ''?'' \<or> c = CHR ''#'')"

definition splitnetloc :: "string \<Rightarrow> string \<times> string" where
  "splitnetloc url =
     (takeWhile (\<lambda>c. \<not> is_netloc_delim c) (drop 2 url),
      dropWhile (\<lambda>c. \<not> is_netloc_delim c) (drop 2 url))"

text \<open>\<open>s.split(c, 1)\<close> for a string that contains \<open>c\<close>: the text before and after the first \<open>c\<close>.\<close>

definition split_first :: "char \<Rightarrow> string \<Rightarrow> string \<times> string" where
  "split_first c s = (takeWhile (\<lambda>x. x \<noteq> c) s, tl (dropWhile (\<lambda>x. x \<noteq> c) s))"

text \<open>
  \<open>urlsplit\<close>, stage by stage. First the leading C0 control characters and spaces are
  stripped and every tab, carriage return and newline is removed.
\<close>

definition clean_url :: "string \<Rightarrow> string" where
  "clean_url url = filter (\<lambda>c. \<not> is_unsafe_url_byte c) (dropWhile is_c0_control_or_space url)"

text \<open>
  The scheme: with \<open>i = url.find(':')\<close>, if \<open>i > 0\<close>, the first character is an ASCII
  letter and every character before the colon is a scheme character, the scheme is
  \<open>url[:i].lower()\<close> and the url continues after the colon.
\<close>

definition split_scheme :: "string \<Rightarrow> string \<times> string" where
  "split_scheme url =
     (case find_char CHR '':'' url of
        None \<Rightarrow> ('''', url)
      | Some i \<Rightarrow>
          if 0 < i \<and> isascii (hd url) \<and> is_ascii_alpha (hd url)
             \<and> (\<forall>c \<in> set (take i url). c \<in> set scheme_chars)
          then (map lower_char (take i url), drop (i + 1) url)
          else ('''', url))"

text \<open>The netloc, present when the url now starts with \<open>//\<close>.\<close>

definition split_netloc :: "string \<Rightarrow> string \<times> string" where
  "split_netloc url = (if take 2 url = ''//'' then splitnetloc url else ('''', url))"

text \<open>
  The bracket checks on the netloc, made only inside \<open>if url[:2] == '//'\<close>: \<open>Some m\<close> is
  \<open>raise ValueError(m)\<close>.
\<close>

definition bracket_error :: "urllib \<Rightarrow> string \<Rightarrow> string \<Rightarrow> string option" where
  "bracket_error L url nl =
     (if take 2 url = ''//'' then
        (if (CHR ''['' \<in> set nl \<and> CHR '']'' \<notin> set nl)
            \<or> (CHR '']'' \<in> set nl \<and> CHR ''['' \<notin> set nl)
         then Some ''Invalid IPv6 URL''
         else if CHR ''['' \<in> set nl \<and> CHR '']'' \<in> set nl
         then check_bracketed_netloc L nl
         else None)
      else None)"

text \<open>The fragment is split off at the first \<open>#\<close>, then the query at the first \<open>?\<close>.\<close>

definition split_fragment :: "string \<Rightarrow> string \<times> string" where
  "split_fragment url = (if CHR ''#'' \<in> set url then split_first CHR ''#'' url else (url, ''''))"

definition split_query :: "string \<Rightarrow> string \<times> string" where
  "split_query url = (if CHR ''?'' \<in> set url then split_first CHR ''?'' url else (url, ''''))"

text \<open>\<open>_checknetloc\<close>: \<open>True\<close> when it raises.\<close>

definition checknetloc_raises :: "urllib \<Rightarrow> string \<Rightarrow> bool" where
  "checknetloc_raises L nl = (nl \<noteq> [] \<and> \<not> (\<forall>c \<in> set nl. isascii c) \<and> nfkc_invalid L nl)"

definition urlsplit :: "urllib \<Rightarrow> string \<Rightarrow> error + (string \<times> string \<times> string \<times> string \<times> string)" where
  "urlsplit L url0 =
     (let (sch, url3) = split_scheme (clean_url url0);
          (nl, url4) = split_netloc url3
      in case bracket_error L url3 nl of
           Some m \<Rightarrow> Inl (ValueError m)
         | None \<Rightarrow>
             (let (url5, fr) = split_fragment url4;
                  (url6, qu) = split_query url5
              in if checknetloc_raises L nl
                 then Inl (ValueError (''netloc '' @ [CHR 0x27] @ nl @ [CHR 0x27]
                             @ '' contains invalid characters under NFKC normalization''))
                 else Inr (sch, nl, url6, qu, fr)))"

text \<open>
  \<open>_splitparams\<close>: the parameters start at the first \<open>;\<close> of the last path segment. Without
  a \<open>/\<close> in the url the first \<open>;\<close> of the url is taken (index \<open>-1\<close> when there is none, as
  \<open>str.find\<close> returns it).
\<close>

definition splitparams :: "string \<Rightarrow> string \<times> string" where
  "splitparams url =
     (if CHR ''/'' \<in> set url then
        (let head = rev (dropWhile (\<lambda>c. c \<noteq> CHR ''/'') (rev url));
             seg = rev (takeWhile (\<lambda>c. c \<noteq> CHR ''/'') (rev url))
         in if CHR '';'' \<notin> set seg then (url, '''')
            else (head @ takeWhile (\<lambda>c. c \<noteq> CHR '';'') seg,
                  tl (dropWhile (\<lambda>c. c \<noteq> CHR '';'') seg)))
      else (case find_char CHR '';'' url of
              Some i \<Rightarrow> (take i url, drop (i + 1) url)
            | None \<Rightarrow> (butlast url, url)))"

definition urlparse :: "urllib \<Rightarrow> string \<Rightarrow> error + ParseResult" where
  "urlparse L url =
     (case urlsplit L url of
        Inl e \<Rightarrow> Inl e
      | Inr (sch, nl, url1, qu, fr) \<Rightarrow>
          (let (url2, ps) =
                 (if sch \<in> set uses_params \<and> CHR '';'' \<in> set url1
                  then splitparams url1 else (url1, ''''))
           in Inr \<lparr>scheme = sch, netloc = nl, path = url2, params = ps,
                    query = qu, fragment = fr\<rparr>))"

section \<open>git\_detector.py\<close>

record RepoInfo =
  organization :: string
  project :: string
  repository :: string

text \<open>
  The regular expressions of \<open>parse_azure_devops_url\<close>. A group \<open>([^/]+)\<close> is greedy: it
  takes the longest run of characters other than \<open>/\<close>, which must be non-empty. In both
  patterns a group is followed by a literal \<open>/\<close> or ends the pattern, so giving back
  characters of the run never produces a match, and the matcher needs no backtracking.
\<close>

definition lit :: "string \<Rightarrow> string \<Rightarrow> string option" where
  "lit l s = (if prefix l s then Some (drop (length l) s) else None)"

definition run_except :: "char \<Rightarrow> string \<Rightarrow> (string \<times> string) option" where
  "run_except d s =
     (if takeWhile (\<lambda>c. c \<noteq> d) s = [] then None
      else Some (takeWhile (\<lambda>c. c \<noteq> d) s, dropWhile (\<lambda>c. c \<noteq> d) s))"

text \<open>The pattern \<open>/([^/]+)/([^/]+)/_git/([^/]+)\<close> matched at the head of \<open>s\<close>.\<close>

definition match_modern :: "string \<Rightarrow> (string \<times> string \<times> string) option" where
  "match_modern s =
     (case lit ''/'' s of None \<Rightarrow> None | Some s1 \<Rightarrow>
      case run_except CHR ''/'' s1 of None \<Rightarrow> None | Some (g1, s2) \<Rightarrow>
      case lit ''/'' s2 of None \<Rightarrow> None | Some s3 \<Rightarrow>
      case run_except CHR ''/'' s3 of None \<Rightarrow> None | Some (g2, s4) \<Rightarrow>
      case lit ''/_git/'' s4 of None \<Rightarrow> None | Some s5 \<Rightarrow>
      case run_except CHR ''/'' s5 of None \<Rightarrow> None | Some (g3, s6) \<Rightarrow>
        Some (g1, g2, g3))"

text \<open>The pattern \<open>/([^/]+)/_git/([^/]+)\<close> matched at the head of \<open>s\<close>.\<close>

definition match_legacy :: "string \<Rightarrow> (string \<times> string) option" where
  "match_legacy s =
     (case lit ''/'' s of None \<Rightarrow> None | Some s1 \<Rightarrow>
      case run_except CHR ''/'' s1 of None \<Rightarrow> None | Some (g1, s2) \<Rightarrow>
      case lit ''/_git/'' s2 of None \<Rightarrow> None | Some s3 \<Rightarrow>
      case run_except CHR ''/'' s3 of None \<Rightarrow> None | Some (g2, s4) \<Rightarrow>
        Some (g1, g2))"

text \<open>The pattern \<open>^([^.]+)\.visualstudio\.com\<close> under \<open>re.match\<close>: at the start of \<open>s\<close> only.\<close>

definition match_org :: "string \<Rightarrow> string option" where
  "match_org s =
     (case run_except CHR ''.'' s of None \<Rightarrow> None | Some (g1, s1) \<Rightarrow>
      case lit ''.visualstudio.com'' s1 of None \<Rightarrow> None | Some s2 \<Rightarrow> Some g1)"

text \<open>\<open>re.search\<close>: the match at the leftmost position of the string where the pattern matches.\<close>

fun re_search :: "(string \<Rightarrow> 'a option) \<Rightarrow> string \<Rightarrow> 'a option" where
  "re_search m [] = m []"
| "re_search m (c # cs) = (case m (c # cs) of Some r \<Rightarrow> Some r | None \<Rightarrow> re_search m cs)"

definition parse_azure_devops_url :: "urllib \<Rightarrow> string \<Rightarrow> error + RepoInfo option" where
  "parse_azure_devops_url L git_url =
     (case urlparse L git_url of
        Inl e \<Rightarrow> Inl e
      | Inr parsed \<Rightarrow>
          if sublist ''dev.azure.com'' (netloc parsed) then
            (case re_search match_modern (path parsed) of
               Some (g1, g2, g3) \<Rightarrow>
                 Inr (Some \<lparr>organization = g1, project = g2, repository = g3\<rparr>)
             | None \<Rightarrow> Inr None)
          else if sublist ''visualstudio.com'' (netloc parsed) then
            (case match_org (netloc parsed) of
               Some org \<Rightarrow>
                 (case re_search match_legacy (path parsed) of
                    Some (g1, g2) \<Rightarrow>
                      Inr (Some \<lparr>organization = org, project = g1, repository = g2\<rparr>)
                  | None \<Rightarrow> Inr None)
             | None \<Rightarrow> Inr None)
          else Inr None)"

text \<open>
  A library instance whose two version-dependent checks accept every netloc. It is used to
  evaluate the parser on URLs whose netloc is ASCII and has no bracket, where neither check
  is consulted.
\<close>

definition no_checks :: urllib where
  "no_checks = \<lparr>check_bracketed_netloc = (\<lambda>n. None), nfkc_invalid = (\<lambda>n. False)\<rparr>"

text \<open>
  A plain path segment: non-empty, without the delimiters \<open>/\<close>, \<open>?\<close>, \<open>#\<close>, \<open>;\<close> and without
  tab, carriage return or newline.
\<close>

definition plain_segment :: "string \<Rightarrow> bool" where
  "plain_segment s =
     (s \<noteq> [] \<and> (\<forall>c \<in> set s. c \<notin> set ''/?#;'' \<and> \<not> is_unsafe_url_byte c))"

section \<open>JSON documents as Python values\<close>

text \<open>
  What \<open>response.json()\<close> returns: \<open>None\<close>, a bool, an int, a float (mantissa and binary
  exponent), a str, a list or a dict. A dict is the list of its items in insertion order,
  with distinct keys.
\<close>

datatype json =
    JNull
  | JBool bool
  | JInt int
  | JFloat int int
  | JStr string
  | JArr "json list"
  | JObj "(string \<times> json) list"

text \<open>\<open>d.get(k, default)\<close>: only a dict has the method.\<close>

definition py_get :: "json \<Rightarrow> string \<Rightarrow> json \<Rightarrow> error + json" where
  "py_get d k dflt =
     (case d of
        JObj kvs \<Rightarrow> Inr (case map_of kvs k of Some v \<Rightarrow> v | None \<Rightarrow> dflt)
      | _ \<Rightarrow> Inl (AttributeError ''get''))"

text \<open>
  \<open>d[k]\<close> with a string key: \<open>KeyError\<close> on a dict without the key, \<open>TypeError\<close> on
  every other value (a list or a str wants an integer index, the rest has no subscript).
\<close>

definition py_item :: "json \<Rightarrow> string \<Rightarrow> error + json" where
  "py_item d k =
     (case d of
        JObj kvs \<Rightarrow> (case map_of kvs k of Some v \<Rightarrow> Inr v | None \<Rightarrow> Inl (KeyError k))
      | _ \<Rightarrow> Inl (TypeError ''subscript''))"

text \<open>
  \<open>for x in v\<close>: a list gives its elements, a dict its keys, a str its characters; nothing
  else is iterable.
\<close>

definition py_iter :: "json \<Rightarrow> error + json list" where
  "py_iter v =
     (case v of
        JArr xs \<Rightarrow> Inr xs
      | JObj kvs \<Rightarrow> Inr (map (\<lambda>kv. JStr (fst kv)) kvs)
      | JStr s \<Rightarrow> Inr (map (\<lambda>c. JStr [c]) s)
      | _ \<Rightarrow> Inl (TypeError ''not iterable''))"

section \<open>models.py\<close>

text \<open>
  The models are pydantic classes: constructing one validates every field and raises
  \<open>ValidationError\<close> when a value does not fit the field's type. What pydantic accepts for
  an \<open>int\<close>, a \<open>str\<close> and a \<open>datetime\<close> field is the library's business and a parameter
  here; \<open>'dt\<close> is the type of datetime values.
\<close>

record 'dt pydantic =
  validate_int :: "json \<Rightarrow> int option"
  validate_str :: "json \<Rightarrow> string option"
  validate_datetime :: "json \<Rightarrow> 'dt option"

text \<open>The author's field \<open>id\<close> is written \<open>id'\<close>.\<close>

record PullRequestAuthor =
  display_name :: string
  unique_name :: string
  id' :: string

record 'dt PullRequest =
  pull_request_id :: int
  title :: string
  description :: "string option"
  status :: string
  created_date :: 'dt
  created_by :: PullRequestAuthor
  source_ref_name :: string
  target_ref_name :: string
  url :: string
  repository_id :: string

record 'dt PullRequestList =
  pull_requests :: "'dt PullRequest list"
  count :: int

definition PullRequestAuthor_new ::
  "'dt pydantic \<Rightarrow> json \<Rightarrow> json \<Rightarrow> json \<Rightarrow> error + PullRequestAuthor" where
  "PullRequestAuthor_new V dn un aid =
     (case (validate_str V dn, validate_str V un, validate_str V aid) of
        (Some a, Some b, Some c) \<Rightarrow> Inr \<lparr>display_name = a, unique_name = b, id' = c\<rparr>
      | _ \<Rightarrow> Inl (ValidationError ''PullRequestAuthor''))"

text \<open>\<open>description\<close> is \<open>Optional[str]\<close>: \<open>None\<close> is accepted as it is.\<close>

definition validate_optional_str :: "'dt pydantic \<Rightarrow> json \<Rightarrow> string option option" where
  "validate_optional_str V j =
     (case j of JNull \<Rightarrow> Some None
      | _ \<Rightarrow> (case validate_str V j of Some s \<Rightarrow> Some (Some s) | None \<Rightarrow> None))"

definition PullRequest_new ::
  "'dt pydantic \<Rightarrow> json \<Rightarrow> json \<Rightarrow> json \<Rightarrow> json \<Rightarrow> json \<Rightarrow> PullRequestAuthor
     \<Rightarrow> json \<Rightarrow> json \<Rightarrow> json \<Rightarrow> json \<Rightarrow> error + 'dt PullRequest" where
  "PullRequest_new V a_id a_title a_desc a_status a_date author a_src a_tgt a_url a_repo =
     (case (validate_int V a_id, validate_str V a_title, validate_optional_str V a_desc,
            validate_str V a_status, validate_datetime V a_date, validate_str V a_src,
            validate_str V a_tgt, validate_str V a_url, validate_str V a_repo) of
        (Some i, Some t, Some d, Some s, Some dt, Some sr, Some tg, Some u, Some r) \<Rightarrow>
          Inr \<lparr>pull_request_id = i, title = t, description = d, status = s,
                created_date = dt, created_by = author, source_ref_name = sr,
                target_ref_name = tg, url = u, repository_id = r\<rparr>
      | _ \<Rightarrow> Inl (ValidationError ''PullRequest''))"

definition from_pull_requests :: "'dt PullRequest list \<Rightarrow> 'dt PullRequestList" where
  "from_pull_requests prs = \<lparr>pull_requests = prs, count = int (length prs)\<rparr>"

section \<open>azure\_client.py\<close>

text \<open>
  The client keeps its organization, the base address built from it and the credentials
  \<open>":" + personal_access_token\<close>; the \<open>Authorization\<close> header of its HTTP client is
  \<open>"Basic "\<close> followed by their base64 encoding. The field \<open>organization\<close> is written
  \<open>client_organization\<close>, since \<open>RepoInfo\<close> has a field of that name.
\<close>

record AzureDevOpsClient =
  client_organization :: string
  base_url :: string
  credentials :: string

definition AzureDevOpsClient_init :: "string \<Rightarrow> string \<Rightarrow> AzureDevOpsClient" where
  "AzureDevOpsClient_init org personal_access_token =
     \<lparr>client_organization = org,
      base_url = ''https://dev.azure.com/'' @ org,
      credentials = '':'' @ personal_access_token\<rparr>"

definition API_VERSION :: string where
  "API_VERSION = ''7.1''"

text \<open>
  The outbound request (address and query parameters in insertion order) and what
  \<open>self.client.get\<close> does with it: it returns a response, or raises \<open>httpx.ConnectError\<close>
  (connection refused, DNS failure), a \<open>httpx.TimeoutException\<close>, or something else. A
  response has its status code, its body text and the value of \<open>response.json()\<close>, \<open>None\<close>
  when the body is no JSON document.
\<close>

record request =
  req_url :: string
  req_params :: "(string \<times> string) list"

record response =
  status_code :: nat
  text_body :: string
  json_body :: "json option"

datatype http_outcome =
    Answered response
  | ConnectError string
  | TimeoutException string
  | OtherTransportError string

text \<open>\<open>raise_for_status\<close> raises \<open>HTTPStatusError\<close> unless the status is 2xx.\<close>

definition is_success :: "response \<Rightarrow> bool" where
  "is_success r = (200 \<le> status_code r \<and> status_code r \<le> 299)"

text \<open>The body of the \<open>for pr_data in ...\<close> loop, up to \<open>pr_list.append(pr)\<close>.\<close>

definition pull_request_of :: "'dt pydantic \<Rightarrow> json \<Rightarrow> error + 'dt PullRequest" where
  "pull_request_of V pr_data =
     sbind (py_get pr_data ''createdBy'' (JObj [])) (\<lambda>created_by_data.
     sbind (py_get created_by_data ''displayName'' (JStr ''Unknown'')) (\<lambda>dn.
     sbind (py_get created_by_data ''uniqueName'' (JStr '''')) (\<lambda>un.
     sbind (py_get created_by_data ''id'' (JStr '''')) (\<lambda>aid.
     sbind (PullRequestAuthor_new V dn un aid) (\<lambda>author.
     sbind (py_item pr_data ''pullRequestId'') (\<lambda>a_id.
     sbind (py_item pr_data ''title'') (\<lambda>a_title.
     sbind (py_get pr_data ''description'' JNull) (\<lambda>a_desc.
     sbind (py_item pr_data ''status'') (\<lambda>a_status.
     sbind (py_item pr_data ''creationDate'') (\<lambda>a_date.
     sbind (py_item pr_data ''sourceRefName'') (\<lambda>a_src.
     sbind (py_item pr_data ''targetRefName'') (\<lambda>a_tgt.
     sbind (py_get pr_data ''url'' (JStr '''')) (\<lambda>a_url.
     sbind (py_item pr_data ''repository'') (\<lambda>repo.
     sbind (py_item repo ''id'') (\<lambda>a_repo.
       PullRequest_new V a_id a_title a_desc a_status a_date author a_src a_tgt a_url a_repo
     )))))))))))))))"

fun build_pr_list ::
  "'dt pydantic \<Rightarrow> json list \<Rightarrow> 'dt PullRequest list \<Rightarrow> error + 'dt PullRequest list" where
  "build_pr_list V [] pr_list = Inr pr_list"
| "build_pr_list V (pr_data # rest) pr_list =
     (case pull_request_of V pr_data of
        Inl e \<Rightarrow> Inl e
      | Inr pr \<Rightarrow> build_pr_list V rest (pr_list @ [pr]))"

text \<open>
  \<open>get_pull_requests\<close> returns the request it issued together with its result. The
  parameters \<open>project\<close>, \<open>repository\<close> and \<open>status\<close> are written with a prime, the plain
  names being record fields.
\<close>

definition get_pull_requests ::
  "'dt pydantic \<Rightarrow> (request \<Rightarrow> http_outcome) \<Rightarrow> AzureDevOpsClient
     \<Rightarrow> string \<Rightarrow> string \<Rightarrow> string \<Rightarrow> request \<times> (error + 'dt PullRequestList)" where
  "get_pull_requests V http_get self project' repository' status' =
     (let address = base_url self @ ''/'' @ project' @ ''/_apis/git/repositories/''
                      @ repository' @ ''/pullrequests'';
          params0 = [(''api-version'', API_VERSION)];
          params1 = (if status' \<noteq> ''all''
                     then params0 @ [(''searchCriteria.status'', status')] else params0);
          rq = \<lparr>req_url = address, req_params = params1\<rparr>
      in (rq,
          case http_get rq of
            ConnectError m \<Rightarrow>
              Inl (ValueError (''Network error connecting to Azure DevOps: '' @ m))
          | TimeoutException m \<Rightarrow>
              Inl (ValueError (''Network error connecting to Azure DevOps: '' @ m))
          | OtherTransportError m \<Rightarrow> Inl (OtherException m)
          | Answered r \<Rightarrow>
              if \<not> is_success r then
                (if status_code r = 401 then
                   Inl (ValueError
                     ''Authentication failed. Check AZURE_DEVOPS_PAT token and permissions'')
                 else if status_code r = 404 then
                   Inl (ValueError (''Project '' @ [CHR 0x27] @ project' @ [CHR 0x27]
                          @ '' or repository '' @ [CHR 0x27] @ repository' @ [CHR 0x27]
                          @ '' not found''))
                 else Inl (HTTPStatusError (status_code r) (text_body r)))
              else
                (case json_body r of
                   None \<Rightarrow> Inl JSONDecodeError
                 | Some data \<Rightarrow>
                     sbind (py_get data ''value'' (JArr [])) (\<lambda>v.
                     sbind (py_iter v) (\<lambda>items.
                     sbind (build_pr_list V items []) (\<lambda>pr_list.
                       Inr (from_pull_requests pr_list)))))))"


section \<open>git\_detector.py: the remote detector\<close>

text \<open>
  What \<open>subprocess.run\<close> does for \<open>git config --get remote.origin.url\<close> with
  \<open>check=True\<close> and \<open>timeout=5\<close>: it completes with exit status 0 and the captured standard
  output, or raises \<open>CalledProcessError\<close> (non-zero exit status), \<open>TimeoutExpired\<close>,
  \<open>FileNotFoundError\<close> (no such program) or something else.
\<close>

datatype subprocess_result =
    Completed string
  | CalledProcessError int
  | TimeoutExpired
  | FileNotFoundError
  | OtherSubprocessError string

text \<open>\<open>str.strip()\<close> removes the white space of \<open>str.isspace\<close> at both ends.\<close>

definition isspace :: "char \<Rightarrow> bool" where
  "isspace c =
     (let n = (of_char c :: nat)
      in (9 \<le> n \<and> n \<le> 13) \<or> (28 \<le> n \<and> n \<le> 32) \<or> n = 133 \<or> n = 160)"

definition strip :: "string \<Rightarrow> string" where
  "strip s = rev (dropWhile isspace (rev (dropWhile isspace s)))"

definition get_git_remote_url :: "subprocess_result \<Rightarrow> error + string option" where
  "get_git_remote_url run =
     (case run of
        Completed out \<Rightarrow> Inr (Some (strip out))
      | CalledProcessError c \<Rightarrow> Inr None
      | TimeoutExpired \<Rightarrow> Inr None
      | FileNotFoundError \<Rightarrow> Inr None
      | OtherSubprocessError m \<Rightarrow> Inl (OtherException m))"

text \<open>\<open>if url:\<close> holds for a non-empty string.\<close>

definition detect_current_repo :: "urllib \<Rightarrow> subprocess_result \<Rightarrow> error + RepoInfo option" where
  "detect_current_repo L run =
     (case get_git_remote_url run of
        Inl e \<Rightarrow> Inl e
      | Inr None \<Rightarrow> Inr None
      | Inr (Some u) \<Rightarrow> if u \<noteq> [] then parse_azure_devops_url L u else Inr None)"

section \<open>config.py\<close>

record Settings =
  azure_devops_pat :: string
  ado_organization :: "string option"
  ado_project :: "string option"
  ado_repository :: "string option"
  mcp_transport :: string
  mcp_log_level :: string

section \<open>resources.py\<close>

text \<open>
  The module-level variables \<open>_ado_client\<close> (resources.py) and \<open>_settings\<close> (config.py) are the
  state of the process; both start as \<open>None\<close>.
\<close>

record globals =
  ado_client :: "AzureDevOpsClient option"
  settings :: "Settings option"

definition initial_globals :: globals where
  "initial_globals = \<lparr>ado_client = None, settings = None\<rparr>"

text \<open>
  What surrounds the process during one call of a handler: the libraries, the outcome of the
  git subprocess, the outcome of constructing \<open>Settings()\<close> from the process environment and
  the answer of the upstream service to a request.
\<close>

record 'dt world =
  lib_urllib :: urllib
  lib_pydantic :: "'dt pydantic"
  run_git :: subprocess_result
  load_settings :: "error + Settings"
  http_get :: "request \<Rightarrow> http_outcome"

text \<open>
  A handler returns a string: \<open>ModelDumpJson l\<close> stands for \<open>l.model_dump_json(indent=2)\<close> and
  \<open>JsonDumps v\<close> for \<open>json.dumps(v, indent=2)\<close>.
\<close>

datatype 'dt json_text =
    ModelDumpJson "'dt PullRequestList"
  | JsonDumps json

definition get_settings :: "'dt world \<Rightarrow> globals \<Rightarrow> (error + Settings) \<times> globals" where
  "get_settings W g =
     (case settings g of
        Some s \<Rightarrow> (Inr s, g)
      | None \<Rightarrow>
          (case load_settings W of
             Inl e \<Rightarrow> (Inl e, g)
           | Inr s \<Rightarrow> (Inr s, g\<lparr>settings := Some s\<rparr>)))"

text \<open>\<open>org = repo_info.organization if repo_info else settings.ado_organization\<close>\<close>

definition default_organization :: "RepoInfo option \<Rightarrow> Settings \<Rightarrow> string option" where
  "default_organization repo_info s =
     (case repo_info of Some ri \<Rightarrow> Some (organization ri) | None \<Rightarrow> ado_organization s)"

definition get_ado_client :: "'dt world \<Rightarrow> globals \<Rightarrow> (error + AzureDevOpsClient) \<times> globals" where
  "get_ado_client W g =
     (case ado_client g of
        Some c \<Rightarrow> (Inr c, g)
      | None \<Rightarrow>
          (case get_settings W g of
             (Inl e, g1) \<Rightarrow> (Inl e, g1)
           | (Inr s, g1) \<Rightarrow>
               (case detect_current_repo (lib_urllib W) (run_git W) of
                  Inl e \<Rightarrow> (Inl e, g1)
                | Inr repo_info \<Rightarrow>
                    (case default_organization repo_info s of
                       None \<Rightarrow>
                         (Inl (ValueError (''No organization found. Set ADO_ORGANIZATION environment variable ''
                                 @ ''or run from an Azure DevOps git repository'')), g1)
                     | Some org \<Rightarrow>
                         if org = [] then
                           (Inl (ValueError (''No organization found. Set ADO_ORGANIZATION environment variable ''
                                   @ ''or run from an Azure DevOps git repository'')), g1)
                         else
                           (let c = AzureDevOpsClient_init org (azure_devops_pat s)
                            in (Inr c, g1\<lparr>ado_client := Some c\<rparr>))))))"

text \<open>
  A handler returns its result (or the exception it raises), the requests it sent upstream
  and the state of the process afterwards. The parameters are primed as in
  \<open>get_pull_requests\<close>.
\<close>

definition list_pull_requests_resource ::
  "'dt world \<Rightarrow> globals \<Rightarrow> string \<Rightarrow> string \<Rightarrow> string \<Rightarrow> string
     \<Rightarrow> (error + 'dt json_text) \<times> request list \<times> globals" where
  "list_pull_requests_resource W g organization' project' repository' status' =
     (case get_ado_client W g of
        (Inl e, g1) \<Rightarrow> (Inl e, [], g1)
      | (Inr client, g1) \<Rightarrow>
          (case get_pull_requests (lib_pydantic W) (http_get W) client project' repository' status' of
             (rq, Inl e) \<Rightarrow> (Inl e, [rq], g1)
           | (rq, Inr result) \<Rightarrow> (Inr (ModelDumpJson result), [rq], g1)))"

definition error_response :: json where
  "error_response =
     JObj [(''error'', JStr ''Not in an Azure DevOps git repository''),
           (''suggestion'', JStr (''Use explicit organization/project/repository parameters ''
              @ ''or run from an Azure DevOps git repository''))]"

definition list_current_pull_requests_resource ::
  "'dt world \<Rightarrow> globals \<Rightarrow> string
     \<Rightarrow> (error + 'dt json_text) \<times> request list \<times> globals" where
  "list_current_pull_requests_resource W g status' =
     (case detect_current_repo (lib_urllib W) (run_git W) of
        Inl e \<Rightarrow> (Inl e, [], g)
      | Inr None \<Rightarrow> (Inr (JsonDumps error_response), [], g)
      | Inr (Some repo_info) \<Rightarrow>
          (case get_ado_client W g of
             (Inl e, g1) \<Rightarrow> (Inl e, [], g1)
           | (Inr client, g1) \<Rightarrow>
               (case get_pull_requests (lib_pydantic W) (http_get W) client
                       (project repo_info) (repository repo_info) status' of
                  (rq, Inl e) \<Rightarrow> (Inl e, [rq], g1)
                | (rq, Inr result) \<Rightarrow> (Inr (ModelDumpJson result), [rq], g1))))"

section \<open>Concrete surroundings for evaluation\<close>

text \<open>
  Validators that accept a JSON integer for an \<open>int\<close> field and a JSON string for a \<open>str\<close> or
  a \<open>datetime\<close> field (the datetime kept as that string), and a world outside any git
  repository, configured with an organization, whose upstream answers every request with
  200 and an empty \<open>value\<close> array.
\<close>

definition plain_pydantic :: "string pydantic" where
  "plain_pydantic =
     \<lparr>validate_int = (\<lambda>j. case j of JInt n \<Rightarrow> Some n | _ \<Rightarrow> None),
      validate_str = (\<lambda>j. case j of JStr s \<Rightarrow> Some s | _ \<Rightarrow> None),
      validate_datetime = (\<lambda>j. case j of JStr s \<Rightarrow> Some s | _ \<Rightarrow> None)\<rparr>"

definition configured_settings :: Settings where
  "configured_settings =
     \<lparr>azure_devops_pat = ''token'', ado_organization = Some ''configured'',
      ado_project = None, ado_repository = None,
      mcp_transport = ''stdio'', mcp_log_level = ''INFO''\<rparr>"

definition empty_answer :: response where
  "empty_answer = \<lparr>status_code = 200, text_body = '''', json_body = Some (JObj [(''value'', JArr [])])\<rparr>"

definition configured_world :: "string world" where
  "configured_world =
     \<lparr>lib_urllib = no_checks, lib_pydantic = plain_pydantic,
      run_git = CalledProcessError 1, load_settings = Inr configured_settings,
      http_get = (\<lambda>rq. Answered empty_answer)\<rparr>"


section \<open>Mandatory fields of an upstream pull request\<close>

text \<open>
  An element of the \<open>value\<close> array lacks a mandatory field when it is no JSON object, or has
  no key \<open>pullRequestId\<close>, \<open>title\<close>, \<open>status\<close>, \<open>creationDate\<close>, \<open>sourceRefName\<close>,
  \<open>targetRefName\<close> or \<open>repository\<close>, or when its \<open>repository\<close> is no object with a key \<open>id\<close>.
\<close>

definition has_key :: "json \<Rightarrow> string \<Rightarrow> bool" where
  "has_key d k = (case d of JObj kvs \<Rightarrow> k \<in> set (map fst kvs) | _ \<Rightarrow> False)"

definition has_repository_id :: "json \<Rightarrow> bool" where
  "has_repository_id d =
     (case d of
        JObj kvs \<Rightarrow> (case map_of kvs ''repository'' of Some r \<Rightarrow> has_key r ''id'' | None \<Rightarrow> False)
      | _ \<Rightarrow> False)"

definition lacks_mandatory_field :: "json \<Rightarrow> bool" where
  "lacks_mandatory_field d =
     (\<not> has_key d ''pullRequestId'' \<or> \<not> has_key d ''title'' \<or> \<not> has_key d ''status''
      \<or> \<not> has_key d ''creationDate'' \<or> \<not> has_key d ''sourceRefName''
      \<or> \<not> has_key d ''targetRefName'' \<or> \<not> has_repository_id d)"

text \<open>
  The pull request of the test fixtures (\<open>mock_pr_data\<close> in conftest.py), the same without
  its \<open>title\<close>, and a client as the fixtures build it.
\<close>

definition mock_pr_data :: json where
  "mock_pr_data =
     JObj [(''pullRequestId'', JInt 123),
           (''title'', JStr ''Test PR''),
           (''description'', JStr ''Test description''),
           (''status'', JStr ''active''),
           (''creationDate'', JStr ''2024-01-01T00:00:00Z''),
           (''createdBy'', JObj [(''displayName'', JStr ''John Doe''),
                                 (''uniqueName'', JStr ''john@example.com''),
                                 (''id'', JStr ''user-id-123'')]),
           (''sourceRefName'', JStr ''refs/heads/feature''),
           (''targetRefName'', JStr ''refs/heads/main''),
           (''url'', JStr ''https://dev.azure.com/testorg/testproj/_git/testrepo/pullrequest/123''),
           (''repository'', JObj [(''id'', JStr ''repo-id-456'')])]"

definition untitled_pr_data :: json where
  "untitled_pr_data =
     JObj [(''pullRequestId'', JInt 123),
           (''status'', JStr ''active''),
           (''creationDate'', JStr ''2024-01-01T00:00:00Z''),
           (''sourceRefName'', JStr ''refs/heads/feature''),
           (''targetRefName'', JStr ''refs/heads/main''),
           (''repository'', JObj [(''id'', JStr ''repo-id-456'')])]"

definition answer_with :: "json \<Rightarrow> response" where
  "answer_with data = \<lparr>status_code = 200, text_body = '''', json_body = Some data\<rparr>"

definition ado_client_fixture :: AzureDevOpsClient where
  "ado_client_fixture = AzureDevOpsClient_init ''testorg'' ''fake_pat_token_for_testing''"



section \<open>Properties of the URL parser\<close>

subsection \<open>The matchers\<close>

lemma lit_iff: "lit l s = Some t \<longleftrightarrow> s = l @ t"
  by (auto simp: lit_def prefix_def)

lemma takeWhile_run:
  assumes "d \<notin> set g" "t = [] \<or> hd t = d"
  shows "takeWhile (\<lambda>c. c \<noteq> d) (g @ t) = g"
proof -
  have "takeWhile (\<lambda>c. c \<noteq> d) t = []" using assms(2) by (cases t) auto
  moreover have "takeWhile (\<lambda>c. c \<noteq> d) (g @ t) = g @ takeWhile (\<lambda>c. c \<noteq> d) t"
    using assms(1) by (intro takeWhile_append2) auto
  ultimately show ?thesis by simp
qed

lemma dropWhile_run:
  assumes "d \<notin> set g" "t = [] \<or> hd t = d"
  shows "dropWhile (\<lambda>c. c \<noteq> d) (g @ t) = t"
proof -
  have "dropWhile (\<lambda>c. c \<noteq> d) t = t" using assms(2) by (cases t) auto
  moreover have "dropWhile (\<lambda>c. c \<noteq> d) (g @ t) = dropWhile (\<lambda>c. c \<noteq> d) t"
    using assms(1) by (intro dropWhile_append2) auto
  ultimately show ?thesis by simp
qed

lemma run_except_iff:
  "run_except d s = Some (g, t) \<longleftrightarrow>
     g \<noteq> [] \<and> d \<notin> set g \<and> s = g @ t \<and> (t = [] \<or> hd t = d)"
proof
  assume h: "run_except d s = Some (g, t)"
  then have g: "g = takeWhile (\<lambda>c. c \<noteq> d) s" and t: "t = dropWhile (\<lambda>c. c \<noteq> d) s" and ne: "g \<noteq> []"
    by (auto simp: run_except_def split: if_splits)
  have "d \<notin> set g" using g by (auto dest: set_takeWhileD)
  moreover have "s = g @ t" using g t by simp
  moreover have "t = [] \<or> hd t = d" using t hd_dropWhile[of "\<lambda>c. c \<noteq> d" s] by auto
  ultimately show "g \<noteq> [] \<and> d \<notin> set g \<and> s = g @ t \<and> (t = [] \<or> hd t = d)" using ne by simp
next
  assume "g \<noteq> [] \<and> d \<notin> set g \<and> s = g @ t \<and> (t = [] \<or> hd t = d)"
  then show "run_except d s = Some (g, t)"
    by (simp add: run_except_def takeWhile_run dropWhile_run)
qed

lemma run_except_app:
  "g \<noteq> [] \<Longrightarrow> d \<notin> set g \<Longrightarrow> t = [] \<or> hd t = d \<Longrightarrow> run_except d (g @ t) = Some (g, t)"
  by (simp add: run_except_iff)

lemma run_except_app_Cons:
  "g \<noteq> [] \<Longrightarrow> d \<notin> set g \<Longrightarrow> run_except d (g @ d # t) = Some (g, d # t)"
  by (simp add: run_except_iff)

lemma match_modern_intro:
  assumes "g1 \<noteq> []" "CHR ''/'' \<notin> set g1" "g2 \<noteq> []" "CHR ''/'' \<notin> set g2"
    "g3 \<noteq> []" "CHR ''/'' \<notin> set g3" "rest = [] \<or> hd rest = CHR ''/''"
  shows "match_modern (''/'' @ g1 @ ''/'' @ g2 @ ''/_git/'' @ g3 @ rest) = Some (g1, g2, g3)"
  using assms by (simp add: match_modern_def lit_def run_except_app_Cons run_except_app)


lemma match_modern_elim:
  assumes "match_modern s = Some (g1, g2, g3)"
  shows "\<exists>rest. s = ''/'' @ g1 @ ''/'' @ g2 @ ''/_git/'' @ g3 @ rest"
proof -
  from assms obtain s1 s2 s3 s4 s5 s6 where
    "lit ''/'' s = Some s1" "run_except CHR ''/'' s1 = Some (g1, s2)"
    "lit ''/'' s2 = Some s3" "run_except CHR ''/'' s3 = Some (g2, s4)"
    "lit ''/_git/'' s4 = Some s5" "run_except CHR ''/'' s5 = Some (g3, s6)"
    unfolding match_modern_def by (simp split: option.splits prod.splits)
  then have "s = ''/'' @ s1" "s1 = g1 @ s2" "s2 = ''/'' @ s3" "s3 = g2 @ s4"
    "s4 = ''/_git/'' @ s5" "s5 = g3 @ s6"
    unfolding lit_iff run_except_iff by blast+
  then have "s = ''/'' @ g1 @ ''/'' @ g2 @ ''/_git/'' @ g3 @ s6" by simp
  then show ?thesis ..
qed

lemma match_legacy_elim:
  assumes "match_legacy s = Some (g1, g2)"
  shows "\<exists>rest. s = ''/'' @ g1 @ ''/_git/'' @ g2 @ rest"
proof -
  from assms obtain s1 s2 s3 s4 where
    "lit ''/'' s = Some s1" "run_except CHR ''/'' s1 = Some (g1, s2)"
    "lit ''/_git/'' s2 = Some s3" "run_except CHR ''/'' s3 = Some (g2, s4)"
    unfolding match_legacy_def by (simp split: option.splits prod.splits)
  then have "s = ''/'' @ s1" "s1 = g1 @ s2" "s2 = ''/_git/'' @ s3" "s3 = g2 @ s4"
    unfolding lit_iff run_except_iff by blast+
  then have "s = ''/'' @ g1 @ ''/_git/'' @ g2 @ s4" by simp
  then show ?thesis ..
qed

lemma match_org_elim:
  assumes "match_org s = Some g"
  shows "\<exists>rest. s = g @ ''.visualstudio.com'' @ rest"
proof -
  from assms obtain s1 s2 where
    "run_except CHR ''.'' s = Some (g, s1)" "lit ''.visualstudio.com'' s1 = Some s2"
    unfolding match_org_def by (simp split: option.splits prod.splits)
  then have "s = g @ s1" "s1 = ''.visualstudio.com'' @ s2"
    unfolding lit_iff run_except_iff by blast+
  then have "s = g @ ''.visualstudio.com'' @ s2" by simp
  then show ?thesis ..
qed

lemma re_search_head: "m s = Some r \<Longrightarrow> re_search m s = Some r"
  by (cases s) simp_all

lemma re_search_Some: "re_search m s = Some r \<Longrightarrow> \<exists>pre suf. s = pre @ suf \<and> m suf = Some r"
proof (induction s)
  case Nil
  then show ?case by simp
next
  case (Cons c cs)
  show ?case
  proof (cases "m (c # cs)")
    case None
    with Cons obtain pre suf where "cs = pre @ suf" "m suf = Some r" by auto
    then have "c # cs = (c # pre) @ suf \<and> m suf = Some r" by simp
    then show ?thesis by blast
  next
    case (Some a)
    with Cons.prems have "c # cs = [] @ (c # cs) \<and> m (c # cs) = Some r" by simp
    then show ?thesis by blast
  qed
qed

subsection \<open>The parsed components are pieces of the input\<close>

lemma subseq_takeWhile': "subseq (takeWhile P xs) xs"
  by (rule prefix_imp_subseq[OF takeWhile_is_prefix])

lemma subseq_dropWhile': "subseq (dropWhile P xs) xs"
  by (rule suffix_imp_subseq[OF suffix_dropWhile])

lemma subseq_drop': "subseq (drop n xs) xs"
  by (rule suffix_imp_subseq[OF suffix_drop])

lemma subseq_take': "subseq (take n xs) xs"
  by (rule prefix_imp_subseq[OF take_is_prefix])

lemma subseq_butlast': "subseq (butlast xs) xs"
  by (rule prefix_imp_subseq[OF prefixeq_butlast])

lemma clean_url_subseq: "subseq (clean_url u) u"
  unfolding clean_url_def
  by (rule subseq_order.trans[OF subseq_filter_left subseq_dropWhile'])

lemma split_scheme_subseq: "subseq (snd (split_scheme u)) u"
  by (simp add: split_scheme_def subseq_drop' split: option.splits)

lemma split_netloc_subseq: "subseq (fst (split_netloc u)) u" "subseq (snd (split_netloc u)) u"
  unfolding split_netloc_def splitnetloc_def
  by (auto intro: subseq_order.trans[OF subseq_takeWhile' subseq_drop']
                  subseq_order.trans[OF subseq_dropWhile' subseq_drop'])

lemma split_fragment_subseq: "subseq (fst (split_fragment u)) u"
  by (simp add: split_fragment_def split_first_def subseq_takeWhile')

lemma split_query_subseq: "subseq (fst (split_query u)) u"
  by (simp add: split_query_def split_first_def subseq_takeWhile')

lemma splitparams_subseq: "subseq (fst (splitparams s)) s"
proof (cases "CHR ''/'' \<in> set s")
  case True
  let ?P = "\<lambda>c. c \<noteq> CHR ''/''"
  let ?head = "rev (dropWhile ?P (rev s))"
  let ?seg = "rev (takeWhile ?P (rev s))"
  have "rev (takeWhile ?P (rev s) @ dropWhile ?P (rev s)) = s"
    by (simp only: takeWhile_dropWhile_id rev_rev_ident)
  then have eq: "?head @ ?seg = s" by (simp only: rev_append)
  have "subseq (?head @ takeWhile (\<lambda>c. c \<noteq> CHR '';'') ?seg) (?head @ ?seg)"
    by (rule list_emb_append_mono[OF subseq_order.order_refl subseq_takeWhile'])
  then have "subseq (?head @ takeWhile (\<lambda>c. c \<noteq> CHR '';'') ?seg) s"
    by (simp only: eq)
  then show ?thesis using True by (simp add: splitparams_def Let_def)
next
  case False
  then show ?thesis
    by (simp add: splitparams_def find_char_def subseq_take' subseq_butlast')
qed

lemma urlsplit_subseq:
  assumes "urlsplit L u = Inr (sch, nl, pa, qu, fr)"
  shows "subseq nl u \<and> subseq pa u"
proof -
  define url3 where "url3 = snd (split_scheme (clean_url u))"
  define url4 where "url4 = snd (split_netloc url3)"
  define url5 where "url5 = fst (split_fragment url4)"
  have nl: "nl = fst (split_netloc url3)" and pa: "pa = fst (split_query url5)"
    using assms unfolding urlsplit_def Let_def split_beta url3_def url4_def url5_def
    by (simp_all split: option.splits if_splits)
  have 3: "subseq url3 u"
    unfolding url3_def by (rule subseq_order.trans[OF split_scheme_subseq clean_url_subseq])
  have "subseq nl url3" unfolding nl by (rule split_netloc_subseq)
  then have n: "subseq nl u" using 3 by (rule subseq_order.trans)
  have "subseq url4 url3" unfolding url4_def by (rule split_netloc_subseq)
  then have 4: "subseq url4 u" using 3 by (rule subseq_order.trans)
  have "subseq url5 url4" unfolding url5_def by (rule split_fragment_subseq)
  then have 5: "subseq url5 u" using 4 by (rule subseq_order.trans)
  have "subseq pa url5" unfolding pa by (rule split_query_subseq)
  then have "subseq pa u" using 5 by (rule subseq_order.trans)
  with n show ?thesis by simp
qed

lemma urlparse_subseq:
  assumes "urlparse L u = Inr p"
  shows "subseq (netloc p) u \<and> subseq (path p) u"
proof -
  from assms obtain sch nl pa qu fr where us: "urlsplit L u = Inr (sch, nl, pa, qu, fr)"
    and n: "netloc p = nl"
    and pth: "path p = pa \<or> path p = fst (splitparams pa)"
    unfolding urlparse_def Let_def split_beta
    by (cases "urlsplit L u") (auto split: if_splits)
  have "subseq (path p) pa" using pth splitparams_subseq[of pa] by auto
  with urlsplit_subseq[OF us] n show ?thesis
    using subseq_order.trans by blast
qed

subsection \<open>The branches of the parser\<close>

lemma match_modern_sublist:
  assumes "match_modern s = Some (g1, g2, g3)"
  shows "sublist g1 s \<and> sublist g2 s \<and> sublist g3 s"
proof -
  from match_modern_elim[OF assms] obtain rest where
    s: "s = ''/'' @ g1 @ ''/'' @ g2 @ ''/_git/'' @ g3 @ rest" by blast
  have "sublist g1 (''/'' @ g1 @ (''/'' @ g2 @ ''/_git/'' @ g3 @ rest))"
    by (rule sublist_appendI)
  moreover have "sublist g2 ((''/'' @ g1 @ ''/'') @ g2 @ (''/_git/'' @ g3 @ rest))"
    by (rule sublist_appendI)
  moreover have "sublist g3 ((''/'' @ g1 @ ''/'' @ g2 @ ''/_git/'') @ g3 @ rest)"
    by (rule sublist_appendI)
  ultimately show ?thesis unfolding s by (simp only: append.assoc)
qed

lemma match_legacy_sublist:
  assumes "match_legacy s = Some (g1, g2)"
  shows "sublist g1 s \<and> sublist g2 s"
proof -
  from match_legacy_elim[OF assms] obtain rest where
    s: "s = ''/'' @ g1 @ ''/_git/'' @ g2 @ rest" by blast
  have "sublist g1 (''/'' @ g1 @ (''/_git/'' @ g2 @ rest))"
    by (rule sublist_appendI)
  moreover have "sublist g2 ((''/'' @ g1 @ ''/_git/'') @ g2 @ rest)"
    by (rule sublist_appendI)
  ultimately show ?thesis unfolding s by (simp only: append.assoc)
qed

lemma re_search_sublist:
  assumes "re_search m s = Some r" and "\<And>t. m t = Some r \<Longrightarrow> sublist g t"
  shows "sublist g s"
proof -
  from re_search_Some[OF assms(1)] obtain pre suf where s: "s = pre @ suf" and m: "m suf = Some r"
    by blast
  have "sublist g suf" using assms(2)[OF m] .
  moreover have "sublist suf s" unfolding s by (rule sublist_append_leftI)
  ultimately show ?thesis by (rule sublist_order.order.trans)
qed

lemma parse_modern_branch:
  assumes "urlparse L u = Inr p" "sublist ''dev.azure.com'' (netloc p)"
  shows "parse_azure_devops_url L u =
           (case re_search match_modern (path p) of
              Some (g1, g2, g3) \<Rightarrow> Inr (Some \<lparr>organization = g1, project = g2, repository = g3\<rparr>)
            | None \<Rightarrow> Inr None)"
  using assms by (simp add: parse_azure_devops_url_def)

lemma parse_legacy_branch:
  assumes "urlparse L u = Inr p" "\<not> sublist ''dev.azure.com'' (netloc p)"
  shows "parse_azure_devops_url L u =
           (if sublist ''visualstudio.com'' (netloc p) then
              (case match_org (netloc p) of
                 Some org \<Rightarrow>
                   (case re_search match_legacy (path p) of
                      Some (g1, g2) \<Rightarrow> Inr (Some \<lparr>organization = org, project = g1, repository = g2\<rparr>)
                    | None \<Rightarrow> Inr None)
               | None \<Rightarrow> Inr None)
            else Inr None)"
  using assms by (simp add: parse_azure_devops_url_def)

lemma parse_Inr_urlparse:
  assumes "parse_azure_devops_url L u = Inr x"
  shows "\<exists>p. urlparse L u = Inr p"
  using assms by (cases "urlparse L u") (simp_all add: parse_azure_devops_url_def)

text \<open>
  Claim C2, as the code has it. The two host markers are looked for in the netloc as it is
  written: \<open>parse_azure_devops_url\<close> returns a triple only when the netloc contains
  \<open>dev.azure.com\<close> or \<open>visualstudio.com\<close> character for character (a case-sensitive
  substring test). The extracted project and repository are contiguous pieces of the parsed
  path, the organization is a piece of the path or the start of the netloc, and netloc and
  path are subsequences of the input string: no character is case-folded.
\<close>

theorem host_markers_case_sensitive:
  assumes "parse_azure_devops_url L u = Inr (Some r)"
  shows "\<exists>p. urlparse L u = Inr p
           \<and> (sublist ''dev.azure.com'' (netloc p) \<or> sublist ''visualstudio.com'' (netloc p))
           \<and> (sublist (organization r) (path p) \<or> prefix (organization r) (netloc p))
           \<and> sublist (project r) (path p) \<and> sublist (repository r) (path p)
           \<and> subseq (netloc p) u \<and> subseq (path p) u"
proof -
  from parse_Inr_urlparse[OF assms] obtain p where p: "urlparse L u = Inr p" ..
  note sub = urlparse_subseq[OF p]
  show ?thesis
  proof (cases "sublist ''dev.azure.com'' (netloc p)")
    case True
    from assms obtain g1 g2 g3 where m: "re_search match_modern (path p) = Some (g1, g2, g3)"
      and r: "r = \<lparr>organization = g1, project = g2, repository = g3\<rparr>"
      unfolding parse_modern_branch[OF p True]
      by (cases "re_search match_modern (path p)") auto
    have "sublist g1 (path p)" "sublist g2 (path p)" "sublist g3 (path p)"
      using re_search_sublist[OF m] match_modern_sublist by blast+
    then have "(sublist (organization r) (path p) \<or> prefix (organization r) (netloc p))
           \<and> sublist (project r) (path p) \<and> sublist (repository r) (path p)"
      unfolding r by simp
    with p True sub show ?thesis by blast
  next
    case False
    from assms have eq: "(if sublist ''visualstudio.com'' (netloc p) then
              (case match_org (netloc p) of
                 Some org \<Rightarrow>
                   (case re_search match_legacy (path p) of
                      Some (g1, g2) \<Rightarrow> Inr (Some \<lparr>organization = org, project = g1, repository = g2\<rparr>)
                    | None \<Rightarrow> Inr None)
               | None \<Rightarrow> Inr None)
            else Inr None) = (Inr (Some r) :: error + RepoInfo option)"
      unfolding parse_legacy_branch[OF p False] .
    then have vs: "sublist ''visualstudio.com'' (netloc p)"
      by (simp split: if_splits)
    from eq vs obtain org where o: "match_org (netloc p) = Some org"
      by (cases "match_org (netloc p)") auto
    from eq vs o obtain g1 g2 where m: "re_search match_legacy (path p) = Some (g1, g2)"
      and r: "r = \<lparr>organization = org, project = g1, repository = g2\<rparr>"
      by (cases "re_search match_legacy (path p)") auto
    have "sublist g1 (path p)" "sublist g2 (path p)"
      using re_search_sublist[OF m] match_legacy_sublist by blast+
    moreover have "prefix org (netloc p)"
      using match_org_elim[OF o] unfolding prefix_def by blast
    ultimately have "(sublist (organization r) (path p) \<or> prefix (organization r) (netloc p))
           \<and> sublist (project r) (path p) \<and> sublist (repository r) (path p)"
      unfolding r by simp
    with p vs sub show ?thesis by blast
  qed
qed

theorem host_markers_case_sensitive_witness:
  "parse_azure_devops_url no_checks ''https://MyOrg.visualstudio.com/MyProject/_git/MyRepo''
     = Inr (Some \<lparr>organization = ''MyOrg'', project = ''MyProject'', repository = ''MyRepo''\<rparr>)
   \<and> (\<exists>p. urlparse no_checks ''https://MyOrg.visualstudio.com/MyProject/_git/MyRepo'' = Inr p
           \<and> (sublist ''dev.azure.com'' (netloc p) \<or> sublist ''visualstudio.com'' (netloc p))
           \<and> (sublist ''MyOrg'' (path p) \<or> prefix ''MyOrg'' (netloc p))
           \<and> sublist ''MyProject'' (path p) \<and> sublist ''MyRepo'' (path p)
           \<and> subseq (netloc p) ''https://MyOrg.visualstudio.com/MyProject/_git/MyRepo''
           \<and> subseq (path p) ''https://MyOrg.visualstudio.com/MyProject/_git/MyRepo'')"
proof -
  have h: "parse_azure_devops_url no_checks ''https://MyOrg.visualstudio.com/MyProject/_git/MyRepo''
     = Inr (Some \<lparr>organization = ''MyOrg'', project = ''MyProject'', repository = ''MyRepo''\<rparr>)"
    by code_simp
  have sel: "organization \<lparr>organization = ''MyOrg'', project = ''MyProject'', repository = ''MyRepo''\<rparr> = ''MyOrg''"
    "project \<lparr>organization = ''MyOrg'', project = ''MyProject'', repository = ''MyRepo''\<rparr> = ''MyProject''"
    "repository \<lparr>organization = ''MyOrg'', project = ''MyProject'', repository = ''MyRepo''\<rparr> = ''MyRepo''"
    by simp_all
  show ?thesis
    using host_markers_case_sensitive[OF h] unfolding sel by (rule conjI[OF h])
qed

text \<open>
  The claim C2 as stated fails: a URL whose host spells the marker in upper case is not
  recognized.
\<close>

theorem uppercase_host_counterexample:
  "parse_azure_devops_url no_checks ''https://DEV.AZURE.COM/myorg/MyProject/_git/MyRepo'' = Inr None"
  by code_simp

text \<open>
  Claim C3 at a failing input. \<open>urlparse\<close> raises \<open>ValueError\<close> on a netloc with an opening
  bracket and no closing one; \<open>parse_azure_devops_url\<close> calls it outside any \<open>try\<close>, so the
  exception leaves the parser, whatever the two library checks do.
\<close>

theorem unbalanced_bracket_raises:
  "parse_azure_devops_url L ''https://[dev.azure.com/org/proj/_git/repo''
     = Inl (ValueError ''Invalid IPv6 URL'')"
  by code_simp

subsection \<open>The modern URL shape\<close>

lemma parse_modern_root:
  assumes "urlparse L u = Inr p" and "sublist ''dev.azure.com'' (netloc p)"
    and "path p = ''/'' @ org @ ''/'' @ proj @ ''/_git/'' @ repo @ rest"
    and "org \<noteq> []" "CHR ''/'' \<notin> set org" "proj \<noteq> []" "CHR ''/'' \<notin> set proj"
    and "repo \<noteq> []" "CHR ''/'' \<notin> set repo" "rest = [] \<or> hd rest = CHR ''/''"
  shows "parse_azure_devops_url L u
           = Inr (Some \<lparr>organization = org, project = proj, repository = repo\<rparr>)"
proof -
  have "match_modern (path p) = Some (org, proj, repo)"
    unfolding assms(3) using assms(4-10) by (rule match_modern_intro)
  then have "re_search match_modern (path p) = Some (org, proj, repo)"
    by (rule re_search_head)
  then show ?thesis
    unfolding parse_modern_branch[OF assms(1,2)] by simp
qed

lemma plain_segmentD:
  assumes "plain_segment s"
  shows "s \<noteq> []" "CHR ''/'' \<notin> set s" "CHR ''?'' \<notin> set s" "CHR ''#'' \<notin> set s"
    "CHR '';'' \<notin> set s" "filter (\<lambda>c. \<not> is_unsafe_url_byte c) s = s"
  using assms by (auto simp: plain_segment_def filter_id_conv)

lemma clean_url_modern:
  assumes "plain_segment org" "plain_segment proj" "plain_segment repo"
  shows "clean_url (''https://dev.azure.com/'' @ org @ ''/'' @ proj @ ''/_git/'' @ repo)
           = ''https://dev.azure.com/'' @ org @ ''/'' @ proj @ ''/_git/'' @ repo"
proof -
  have u: "\<not> is_unsafe_url_byte c" if "c \<in> set ''https://dev.azure.com/_git/''" for c
    using that by (auto simp: is_unsafe_url_byte_def)
  have "dropWhile is_c0_control_or_space (''https://dev.azure.com/'' @ org @ ''/'' @ proj @ ''/_git/'' @ repo)
          = ''https://dev.azure.com/'' @ org @ ''/'' @ proj @ ''/_git/'' @ repo"
    by (simp add: is_c0_control_or_space_def)
  moreover have "filter (\<lambda>c. \<not> is_unsafe_url_byte c) ''https://dev.azure.com/'' = ''https://dev.azure.com/''"
    "filter (\<lambda>c. \<not> is_unsafe_url_byte c) ''/'' = ''/''"
    "filter (\<lambda>c. \<not> is_unsafe_url_byte c) ''/_git/'' = ''/_git/''"
    by (simp_all add: is_unsafe_url_byte_def)
  ultimately show ?thesis
    unfolding clean_url_def by (simp only: filter_append plain_segmentD(6)[OF assms(1)]
        plain_segmentD(6)[OF assms(2)] plain_segmentD(6)[OF assms(3)])
qed

lemma split_scheme_https:
  "split_scheme (''https:'' @ t) = (''https'', t)"
  by (simp add: split_scheme_def find_char_def isascii_def is_ascii_alpha_def scheme_chars_def
        lower_char_def)

lemma split_netloc_modern:
  "split_netloc (''//dev.azure.com/'' @ t) = (''dev.azure.com'', ''/'' @ t)"
  by (simp add: split_netloc_def splitnetloc_def is_netloc_delim_def)

lemma no_brackets_modern: "bracket_error L (''//dev.azure.com/'' @ t) ''dev.azure.com'' = None"
  by (simp add: bracket_error_def)

lemma checknetloc_modern: "\<not> checknetloc_raises L ''dev.azure.com''"
  by (simp add: checknetloc_raises_def isascii_def)

lemma urlsplit_modern:
  assumes "plain_segment org" "plain_segment proj" "plain_segment repo"
  shows "urlsplit L (''https://dev.azure.com/'' @ org @ ''/'' @ proj @ ''/_git/'' @ repo)
           = Inr (''https'', ''dev.azure.com'', ''/'' @ org @ ''/'' @ proj @ ''/_git/'' @ repo, '''', '''')"
proof -
  let ?t = "org @ ''/'' @ proj @ ''/_git/'' @ repo"
  have c: "clean_url (''https://dev.azure.com/'' @ ?t) = ''https:'' @ (''//dev.azure.com/'' @ ?t)"
    using clean_url_modern[OF assms] by simp
  have f: "CHR ''#'' \<notin> set (''/'' @ ?t)" "CHR ''?'' \<notin> set (''/'' @ ?t)"
    using assms by (simp_all add: plain_segmentD)
  have sf: "split_fragment (''/'' @ ?t) = (''/'' @ ?t, '''')" "split_query (''/'' @ ?t) = (''/'' @ ?t, '''')"
    using f by (simp_all add: split_fragment_def split_query_def)
  show ?thesis
    unfolding urlsplit_def c split_scheme_https
    by (simp only: Let_def split_conv split_netloc_modern no_brackets_modern option.case
          sf checknetloc_modern if_False)
qed

lemma urlparse_modern:
  assumes "plain_segment org" "plain_segment proj" "plain_segment repo"
  shows "urlparse L (''https://dev.azure.com/'' @ org @ ''/'' @ proj @ ''/_git/'' @ repo)
           = Inr \<lparr>scheme = ''https'', netloc = ''dev.azure.com'',
                   path = ''/'' @ org @ ''/'' @ proj @ ''/_git/'' @ repo,
                   params = '''', query = '''', fragment = ''''\<rparr>"
proof -
  have "CHR '';'' \<notin> set (''/'' @ org @ ''/'' @ proj @ ''/_git/'' @ repo)"
    using assms by (simp add: plain_segmentD)
  then show ?thesis
    unfolding urlparse_def urlsplit_modern[OF assms] by simp
qed

text \<open>
  Claim C4, as the code has it. When the netloc contains \<open>dev.azure.com\<close> and the parsed
  path starts with \<open>/{org}/{proj}/_git/{repo}\<close>, the three parts being non-empty and free of
  \<open>/\<close>, and the path ends there or continues with a \<open>/\<close>, the parser returns exactly the
  triple (org, proj, repo), unchanged. In particular it does so for every URL
  \<open>https://dev.azure.com/{org}/{proj}/_git/{repo}\<close> whose three parts are plain segments.
\<close>

theorem modern_url_triple:
  "(urlparse L u = Inr p \<and> sublist ''dev.azure.com'' (netloc p)
      \<and> path p = ''/'' @ org @ ''/'' @ proj @ ''/_git/'' @ repo @ rest
      \<and> org \<noteq> [] \<and> CHR ''/'' \<notin> set org \<and> proj \<noteq> [] \<and> CHR ''/'' \<notin> set proj
      \<and> repo \<noteq> [] \<and> CHR ''/'' \<notin> set repo \<and> (rest = [] \<or> hd rest = CHR ''/'')
    \<longrightarrow> parse_azure_devops_url L u
          = Inr (Some \<lparr>organization = org, project = proj, repository = repo\<rparr>))
   \<and> (plain_segment org \<and> plain_segment proj \<and> plain_segment repo
    \<longrightarrow> parse_azure_devops_url L (''https://dev.azure.com/'' @ org @ ''/'' @ proj @ ''/_git/'' @ repo)
          = Inr (Some \<lparr>organization = org, project = proj, repository = repo\<rparr>))"
proof (rule conjI; rule impI)
  assume "urlparse L u = Inr p \<and> sublist ''dev.azure.com'' (netloc p)
      \<and> path p = ''/'' @ org @ ''/'' @ proj @ ''/_git/'' @ repo @ rest
      \<and> org \<noteq> [] \<and> CHR ''/'' \<notin> set org \<and> proj \<noteq> [] \<and> CHR ''/'' \<notin> set proj
      \<and> repo \<noteq> [] \<and> CHR ''/'' \<notin> set repo \<and> (rest = [] \<or> hd rest = CHR ''/'')"
  then show "parse_azure_devops_url L u
          = Inr (Some \<lparr>organization = org, project = proj, repository = repo\<rparr>)"
    by (intro parse_modern_root[where p = p and rest = rest]) simp_all
next
  assume a: "plain_segment org \<and> plain_segment proj \<and> plain_segment repo"
  then have up: "urlparse L (''https://dev.azure.com/'' @ org @ ''/'' @ proj @ ''/_git/'' @ repo)
           = Inr \<lparr>scheme = ''https'', netloc = ''dev.azure.com'',
                   path = ''/'' @ org @ ''/'' @ proj @ ''/_git/'' @ repo,
                   params = '''', query = '''', fragment = ''''\<rparr>"
    by (intro urlparse_modern) simp_all
  show "parse_azure_devops_url L (''https://dev.azure.com/'' @ org @ ''/'' @ proj @ ''/_git/'' @ repo)
          = Inr (Some \<lparr>organization = org, project = proj, repository = repo\<rparr>)"
    using a by (intro parse_modern_root[OF up, where rest = "''''"]) (simp_all add: plain_segmentD)
qed

theorem modern_url_triple_witness:
  "parse_azure_devops_url no_checks ''https://dev.azure.com/myorg/MyProject/_git/MyRepo''
     = Inr (Some \<lparr>organization = ''myorg'', project = ''MyProject'', repository = ''MyRepo''\<rparr>)"
proof -
  have h: "plain_segment ''myorg'' \<and> plain_segment ''MyProject'' \<and> plain_segment ''MyRepo''"
    by (simp add: plain_segment_def is_unsafe_url_byte_def)
  have "parse_azure_devops_url no_checks
          (''https://dev.azure.com/'' @ ''myorg'' @ ''/'' @ ''MyProject'' @ ''/_git/'' @ ''MyRepo'')
     = Inr (Some \<lparr>organization = ''myorg'', project = ''MyProject'', repository = ''MyRepo''\<rparr>)"
    by (rule mp[OF conjunct2[OF modern_url_triple] h])
  then show ?thesis by simp
qed

text \<open>
  The second half of claim C4 fails: the pattern is searched at every position of the path
  (\<open>re.search\<close>), so a path whose first three segments do not have the shape still matches
  at an interior position.
\<close>

theorem interior_match_counterexample:
  "parse_azure_devops_url no_checks ''https://dev.azure.com/a/b/c/_git/d''
     = Inr (Some \<lparr>organization = ''b'', project = ''c'', repository = ''d''\<rparr>)"
  by code_simp

section \<open>Properties of the REST client\<close>

lemma sbind_InrE:
  assumes "sbind m f = Inr y"
  obtains v where "m = Inr v" "f v = Inr y"
  using assms by (cases m) (simp_all add: sbind_def)

lemma py_item_Inr_has_key: "py_item d k = Inr v \<Longrightarrow> has_key d k"
  by (cases d) (auto simp: py_item_def has_key_def split: option.splits dest: map_of_SomeD intro: rev_image_eqI)

lemma py_item_Inr_map_of:
  "py_item d k = Inr v \<Longrightarrow> \<exists>kvs. d = JObj kvs \<and> map_of kvs k = Some v"
  by (cases d) (auto simp: py_item_def split: option.splits)

lemma pull_request_of_mandatory:
  assumes "pull_request_of V d = Inr pr"
  shows "\<not> lacks_mandatory_field d"
proof -
  from assms obtain a1 a2 a4 a5 a6 a7 rp a9 where
    k: "py_item d ''pullRequestId'' = Inr a1" "py_item d ''title'' = Inr a2"
       "py_item d ''status'' = Inr a4" "py_item d ''creationDate'' = Inr a5"
       "py_item d ''sourceRefName'' = Inr a6" "py_item d ''targetRefName'' = Inr a7"
       "py_item d ''repository'' = Inr rp" "py_item rp ''id'' = Inr a9"
    unfolding pull_request_of_def by (elim sbind_InrE) blast
  from k(7) obtain kvs where d: "d = JObj kvs" "map_of kvs ''repository'' = Some rp"
    using py_item_Inr_map_of by blast
  have "has_repository_id d"
    using d py_item_Inr_has_key[OF k(8)] by (simp add: has_repository_id_def)
  with k(1-6) show ?thesis
    unfolding lacks_mandatory_field_def by (simp add: py_item_Inr_has_key)
qed

lemma build_pr_list_all:
  "build_pr_list V items acc = Inr prs \<Longrightarrow> x \<in> set items \<Longrightarrow> \<exists>pr. pull_request_of V x = Inr pr"
proof (induction items arbitrary: acc)
  case Nil
  then show ?case by simp
next
  case (Cons pr_data rest)
  then show ?case by (cases "pull_request_of V pr_data") auto
qed

lemma fst_get_pull_requests:
  "fst (get_pull_requests V h c p r s) =
     \<lparr>req_url = base_url c @ ''/'' @ p @ ''/_apis/git/repositories/'' @ r @ ''/pullrequests'',
      req_params = (if s \<noteq> ''all''
                    then [(''api-version'', ''7.1''), (''searchCriteria.status'', s)]
                    else [(''api-version'', ''7.1'')])\<rparr>"
  by (simp add: get_pull_requests_def Let_def API_VERSION_def)

lemma snd_get_pull_requests:
  "snd (get_pull_requests V h c p r s) =
     (case h (fst (get_pull_requests V h c p r s)) of
        ConnectError m \<Rightarrow> Inl (ValueError (''Network error connecting to Azure DevOps: '' @ m))
      | TimeoutException m \<Rightarrow> Inl (ValueError (''Network error connecting to Azure DevOps: '' @ m))
      | OtherTransportError m \<Rightarrow> Inl (OtherException m)
      | Answered resp \<Rightarrow>
          if \<not> is_success resp then
            (if status_code resp = 401 then
               Inl (ValueError ''Authentication failed. Check AZURE_DEVOPS_PAT token and permissions'')
             else if status_code resp = 404 then
               Inl (ValueError (''Project '' @ [CHR 0x27] @ p @ [CHR 0x27]
                      @ '' or repository '' @ [CHR 0x27] @ r @ [CHR 0x27] @ '' not found''))
             else Inl (HTTPStatusError (status_code resp) (text_body resp)))
          else
            (case json_body resp of
               None \<Rightarrow> Inl JSONDecodeError
             | Some data \<Rightarrow>
                 sbind (py_get data ''value'' (JArr [])) (\<lambda>v.
                 sbind (py_iter v) (\<lambda>items.
                 sbind (build_pr_list V items []) (\<lambda>pr_list.
                   Inr (from_pull_requests pr_list))))))"
  by (simp add: get_pull_requests_def Let_def API_VERSION_def)

lemma snd_get_pull_requests_success:
  assumes "h (fst (get_pull_requests V h c p r s)) = Answered resp" "is_success resp"
    "json_body resp = Some data"
  shows "snd (get_pull_requests V h c p r s) =
           sbind (py_get data ''value'' (JArr [])) (\<lambda>v.
           sbind (py_iter v) (\<lambda>items.
           sbind (build_pr_list V items []) (\<lambda>pr_list.
             Inr (from_pull_requests pr_list))))"
  unfolding snd_get_pull_requests[of V h c p r s] assms(1) using assms(2,3) by simp

lemma snd_get_pull_requests_array:
  assumes "h (fst (get_pull_requests V h c p r s)) = Answered resp" "is_success resp"
    "json_body resp = Some (JObj kvs)" "map_of kvs ''value'' = Some (JArr xs)"
  shows "snd (get_pull_requests V h c p r s) =
           sbind (build_pr_list V xs []) (\<lambda>pr_list. Inr (from_pull_requests pr_list))"
proof -
  have "snd (get_pull_requests V h c p r s) =
           sbind (py_get (JObj kvs) ''value'' (JArr [])) (\<lambda>v.
           sbind (py_iter v) (\<lambda>items.
           sbind (build_pr_list V items []) (\<lambda>pr_list.
             Inr (from_pull_requests pr_list))))"
    using assms(1-3) by (rule snd_get_pull_requests_success[where h = h and resp = resp])
  then show ?thesis
    using assms(4) by (simp add: py_get_def py_iter_def sbind_def)
qed

lemma get_pull_requests_Inr_count:
  assumes "snd (get_pull_requests V h c p r s) = Inr l"
  shows "count l = int (length (pull_requests l))"
proof -
  from assms obtain prs where "l = from_pull_requests prs"
    unfolding snd_get_pull_requests[of V h c p r s]
    by (auto split: http_outcome.splits if_splits option.splits elim!: sbind_InrE)
  then show ?thesis by (simp add: from_pull_requests_def)
qed

text \<open>
  Claim C8. The query parameters of the request that \<open>get_pull_requests\<close> issues are the
  API version alone when the status filter is \<open>all\<close>, and otherwise the API version followed
  by \<open>searchCriteria.status\<close> with the filter string exactly as given, whatever that
  string is.
\<close>

theorem status_filter_parameter:
  "req_params (fst (get_pull_requests V h c p r s)) =
     (if s = ''all'' then [(''api-version'', ''7.1'')]
      else [(''api-version'', ''7.1''), (''searchCriteria.status'', s)])"
  by (simp add: fst_get_pull_requests)

theorem status_filter_parameter_witness:
  "req_params (fst (get_pull_requests plain_pydantic (\<lambda>rq. Answered empty_answer)
      ado_client_fixture ''testproj'' ''testrepo'' ''all'')) = [(''api-version'', ''7.1'')]
   \<and> req_params (fst (get_pull_requests plain_pydantic (\<lambda>rq. Answered empty_answer)
      ado_client_fixture ''testproj'' ''testrepo'' ''completed''))
       = [(''api-version'', ''7.1''), (''searchCriteria.status'', ''completed'')]"
  using status_filter_parameter[of plain_pydantic "\<lambda>rq. Answered empty_answer" ado_client_fixture
          "''testproj''" "''testrepo''" "''all''"]
        status_filter_parameter[of plain_pydantic "\<lambda>rq. Answered empty_answer" ado_client_fixture
          "''testproj''" "''testrepo''" "''completed''"]
  by simp

text \<open>
  Claim C5. When the upstream answers with a 2xx status and a JSON object whose \<open>value\<close> is
  an array, and some element of the array lacks a mandatory field (pull request id, title,
  status, creation date, source ref, target ref or the id of the nested repository),
  \<open>get_pull_requests\<close> raises an exception: it returns no list, so no default stands in
  for the missing field.
\<close>

theorem missing_mandatory_field_raises:
  assumes "h (fst (get_pull_requests V h c p r s)) = Answered resp" and "is_success resp"
    and "json_body resp = Some (JObj kvs)" and "map_of kvs ''value'' = Some (JArr xs)"
    and "\<exists>x \<in> set xs. lacks_mandatory_field x"
  shows "\<exists>e. snd (get_pull_requests V h c p r s) = Inl e"
proof (cases "snd (get_pull_requests V h c p r s)")
  case (Inl e)
  then show ?thesis by blast
next
  case (Inr l)
  have "snd (get_pull_requests V h c p r s) =
          sbind (build_pr_list V xs []) (\<lambda>pr_list. Inr (from_pull_requests pr_list))"
    using assms(1-4) by (rule snd_get_pull_requests_array[where h = h and resp = resp])
  with Inr obtain prs where b: "build_pr_list V xs [] = Inr prs"
    by (auto elim: sbind_InrE)
  from assms(5) obtain x where x: "x \<in> set xs" "lacks_mandatory_field x" by blast
  from build_pr_list_all[OF b x(1)] obtain pr where "pull_request_of V x = Inr pr" ..
  from pull_request_of_mandatory[OF this] x(2) show ?thesis by contradiction
qed

theorem missing_mandatory_field_raises_witness:
  "\<exists>e. snd (get_pull_requests plain_pydantic
            (\<lambda>rq. Answered (answer_with (JObj [(''value'', JArr [mock_pr_data, untitled_pr_data])])))
            ado_client_fixture ''testproj'' ''testrepo'' ''active'') = Inl e"
proof -
  let ?resp = "answer_with (JObj [(''value'', JArr [mock_pr_data, untitled_pr_data])])"
  let ?h = "\<lambda>rq::request. Answered ?resp"
  have h1: "?h (fst (get_pull_requests plain_pydantic ?h ado_client_fixture ''testproj'' ''testrepo'' ''active''))
              = Answered ?resp" by simp
  have h2: "is_success ?resp" by (simp add: is_success_def answer_with_def)
  have h3: "json_body ?resp = Some (JObj [(''value'', JArr [mock_pr_data, untitled_pr_data])])"
    by (simp add: answer_with_def)
  have h4: "map_of [(''value'', JArr [mock_pr_data, untitled_pr_data])] ''value''
              = Some (JArr [mock_pr_data, untitled_pr_data])" by simp
  have "lacks_mandatory_field untitled_pr_data" by code_simp
  then have h5: "\<exists>x \<in> set [mock_pr_data, untitled_pr_data]. lacks_mandatory_field x" by simp
  show ?thesis
    by (rule missing_mandatory_field_raises[where h = ?h and resp = ?resp, OF h1 h2 h3 h4 h5])
qed

text \<open>
  Claim C6. When the outbound request fails with \<open>httpx.ConnectError\<close> (connection refused,
  DNS failure) or a \<open>httpx.TimeoutException\<close>, \<open>get_pull_requests\<close> raises the
  \<open>ValueError\<close> whose message starts with \<open>Network error connecting to Azure DevOps\<close>.
  This error differs from the error of every call whose request was answered with a
  non-2xx status: from the authentication error of a 401, from the not-found error of a 404
  for any project and repository, and from the \<open>HTTPStatusError\<close> of any other status.
\<close>

theorem network_failure_is_connectivity_error:
  assumes "h (fst (get_pull_requests V h c p r s)) = ConnectError m
           \<or> h (fst (get_pull_requests V h c p r s)) = TimeoutException m"
  shows "snd (get_pull_requests V h c p r s)
           = Inl (ValueError (''Network error connecting to Azure DevOps: '' @ m))
         \<and> (\<forall>V' h' c' p' r' s' resp.
               h' (fst (get_pull_requests V' h' c' p' r' s')) = Answered resp \<and> \<not> is_success resp
               \<longrightarrow> snd (get_pull_requests V' h' c' p' r' s') \<noteq> snd (get_pull_requests V h c p r s))"
proof -
  have a: "snd (get_pull_requests V h c p r s)
           = Inl (ValueError (''Network error connecting to Azure DevOps: '' @ m))"
    using assms unfolding snd_get_pull_requests[of V h c p r s] by auto
  have b: "snd (get_pull_requests V' h' c' p' r' s')
             \<noteq> Inl (ValueError (''Network error connecting to Azure DevOps: '' @ m))"
    if "h' (fst (get_pull_requests V' h' c' p' r' s')) = Answered resp" "\<not> is_success resp"
    for V' :: "'b pydantic" and h' c' p' r' s' resp
    unfolding snd_get_pull_requests[of V' h' c' p' r' s'] that(1) using that(2) by simp
  show ?thesis unfolding a using b by blast
qed

theorem network_failure_is_connectivity_error_witness:
  "snd (get_pull_requests plain_pydantic (\<lambda>rq. ConnectError ''All connection attempts failed'')
          ado_client_fixture ''testproj'' ''testrepo'' ''active'')
     = Inl (ValueError (''Network error connecting to Azure DevOps: '' @ ''All connection attempts failed''))
   \<and> snd (get_pull_requests plain_pydantic
            (\<lambda>rq. Answered \<lparr>status_code = 401, text_body = '''', json_body = None\<rparr>)
            ado_client_fixture ''testproj'' ''testrepo'' ''active'')
       \<noteq> snd (get_pull_requests plain_pydantic (\<lambda>rq. ConnectError ''All connection attempts failed'')
                ado_client_fixture ''testproj'' ''testrepo'' ''active'')"
proof -
  let ?h = "\<lambda>rq::request. ConnectError ''All connection attempts failed''"
  let ?r = "\<lparr>status_code = 401, text_body = '''', json_body = None\<rparr>"
  let ?h' = "\<lambda>rq::request. Answered ?r"
  have h1: "?h (fst (get_pull_requests plain_pydantic ?h ado_client_fixture ''testproj'' ''testrepo'' ''active''))
              = ConnectError ''All connection attempts failed''
            \<or> ?h (fst (get_pull_requests plain_pydantic ?h ado_client_fixture ''testproj'' ''testrepo'' ''active''))
              = TimeoutException ''All connection attempts failed''"
    by simp
  note t = network_failure_is_connectivity_error[where h = ?h and V = plain_pydantic, OF h1]
  have h2: "?h' (fst (get_pull_requests plain_pydantic ?h' ado_client_fixture ''testproj'' ''testrepo'' ''active''))
              = Answered ?r \<and> \<not> is_success ?r"
    by (simp add: is_success_def)
  have "snd (get_pull_requests plain_pydantic ?h' ado_client_fixture ''testproj'' ''testrepo'' ''active'')
       \<noteq> snd (get_pull_requests plain_pydantic ?h ado_client_fixture ''testproj'' ''testrepo'' ''active'')"
    by (rule mp[OF spec[OF spec[OF spec[OF spec[OF spec[OF spec[OF spec[OF conjunct2[OF t]]]]]]]] h2])
  with conjunct1[OF t] show ?thesis by (rule conjI)
qed

text \<open>
  Claim C10. When the upstream answers with a 2xx status and a JSON object without the key
  \<open>value\<close>, \<open>get_pull_requests\<close> returns the list with no pull request and \<open>count = 0\<close>,
  the same result as for an empty \<open>value\<close> array.
\<close>

theorem missing_value_key_is_empty:
  assumes "h (fst (get_pull_requests V h c p r s)) = Answered resp" and "is_success resp"
    and "json_body resp = Some (JObj kvs)" and "map_of kvs ''value'' = None"
  shows "snd (get_pull_requests V h c p r s) = Inr \<lparr>pull_requests = [], count = 0\<rparr>"
proof -
  have "snd (get_pull_requests V h c p r s) =
           sbind (py_get (JObj kvs) ''value'' (JArr [])) (\<lambda>v.
           sbind (py_iter v) (\<lambda>items.
           sbind (build_pr_list V items []) (\<lambda>pr_list.
             Inr (from_pull_requests pr_list))))"
    using assms(1-3) by (rule snd_get_pull_requests_success[where h = h and resp = resp])
  then show ?thesis
    using assms(4) by (simp add: py_get_def py_iter_def sbind_def from_pull_requests_def)
qed

theorem missing_value_key_is_empty_witness:
  "snd (get_pull_requests plain_pydantic (\<lambda>rq. Answered (answer_with (JObj [(''count'', JInt 0)])))
          ado_client_fixture ''testproj'' ''testrepo'' ''active'')
     = Inr \<lparr>pull_requests = [], count = 0\<rparr>"
proof -
  let ?resp = "answer_with (JObj [(''count'', JInt 0)])"
  let ?h = "\<lambda>rq::request. Answered ?resp"
  have h1: "?h (fst (get_pull_requests plain_pydantic ?h ado_client_fixture ''testproj'' ''testrepo'' ''active''))
              = Answered ?resp" by simp
  have h2: "is_success ?resp" by (simp add: is_success_def answer_with_def)
  have h3: "json_body ?resp = Some (JObj [(''count'', JInt 0)])" by (simp add: answer_with_def)
  have h4: "map_of [(''count'', JInt 0)] ''value'' = None" by simp
  show ?thesis
    by (rule missing_value_key_is_empty[where h = ?h and resp = ?resp, OF h1 h2 h3 h4])
qed

section \<open>Properties of the resource handlers\<close>

lemma list_pull_requests_resource_client:
  assumes "get_ado_client W g = (Inr c, g1)"
  shows "list_pull_requests_resource W g a p r s =
           (case snd (get_pull_requests (lib_pydantic W) (http_get W) c p r s) of
              Inl e \<Rightarrow> Inl e | Inr l \<Rightarrow> Inr (ModelDumpJson l),
            [fst (get_pull_requests (lib_pydantic W) (http_get W) c p r s)], g1)"
  using assms
  by (cases "get_pull_requests (lib_pydantic W) (http_get W) c p r s")
     (simp add: list_pull_requests_resource_def split: sum.splits)

lemma list_pull_requests_resource_no_client:
  assumes "get_ado_client W g = (Inl e, g1)"
  shows "list_pull_requests_resource W g a p r s = (Inl e, [], g1)"
  using assms by (simp add: list_pull_requests_resource_def)

lemma list_pull_requests_resource_Inr:
  assumes "list_pull_requests_resource W g a p r s = (Inr t, reqs, g')"
  shows "\<exists>c l. t = ModelDumpJson l
           \<and> snd (get_pull_requests (lib_pydantic W) (http_get W) c p r s) = Inr l"
proof -
  obtain x g1 where gc: "get_ado_client W g = (x, g1)" by (cases "get_ado_client W g")
  show ?thesis
  proof (cases x)
    case (Inl e)
    with gc assms list_pull_requests_resource_no_client[of W g e g1 a p r s]
    show ?thesis by simp
  next
    case (Inr c)
    with gc have "list_pull_requests_resource W g a p r s =
           (case snd (get_pull_requests (lib_pydantic W) (http_get W) c p r s) of
              Inl e \<Rightarrow> Inl e | Inr l \<Rightarrow> Inr (ModelDumpJson l),
            [fst (get_pull_requests (lib_pydantic W) (http_get W) c p r s)], g1)"
      by (intro list_pull_requests_resource_client) simp
    with assms show ?thesis
      by (cases "snd (get_pull_requests (lib_pydantic W) (http_get W) c p r s)") auto
  qed
qed

lemma list_current_pull_requests_resource_Inr:
  assumes "list_current_pull_requests_resource W g s = (Inr (ModelDumpJson l), reqs, g')"
  shows "\<exists>c p r. snd (get_pull_requests (lib_pydantic W) (http_get W) c p r s) = Inr l"
proof (cases "detect_current_repo (lib_urllib W) (run_git W)")
  case (Inl e)
  with assms show ?thesis by (simp add: list_current_pull_requests_resource_def)
next
  case (Inr ri)
  show ?thesis
  proof (cases ri)
    case None
    with Inr assms show ?thesis by (simp add: list_current_pull_requests_resource_def)
  next
    case (Some repo_info)
    obtain x g1 where gc: "get_ado_client W g = (x, g1)" by (cases "get_ado_client W g")
    show ?thesis
    proof (cases x)
      case (Inl e)
      with gc Inr Some assms show ?thesis by (simp add: list_current_pull_requests_resource_def)
    next
      case c: (Inr c)
      obtain rq y where gp: "get_pull_requests (lib_pydantic W) (http_get W) c
                       (project repo_info) (repository repo_info) s = (rq, y)"
        by (cases "get_pull_requests (lib_pydantic W) (http_get W) c
                       (project repo_info) (repository repo_info) s")
      with gc c Inr Some assms have "y = Inr l"
        by (cases y) (simp_all add: list_current_pull_requests_resource_def)
      with gp have "snd (get_pull_requests (lib_pydantic W) (http_get W) c
                       (project repo_info) (repository repo_info) s) = Inr l" by simp
      then show ?thesis by blast
    qed
  qed
qed

text \<open>
  Claim C7. In every \<open>PullRequestList\<close> that \<open>get_pull_requests\<close> returns, that
  \<open>from_pull_requests\<close> builds, or that one of the two resource handlers serializes,
  \<open>count\<close> is the number of entries of \<open>pull_requests\<close>; and for a 2xx answer whose \<open>value\<close>
  is the empty array the result is the empty sequence with \<open>count = 0\<close>.
\<close>

theorem count_is_length:
  "(\<forall>l. snd (get_pull_requests V h c p r s) = Inr l \<longrightarrow> count l = int (length (pull_requests l)))
   \<and> count (from_pull_requests prs) = int (length (pull_requests (from_pull_requests prs)))
   \<and> (\<forall>l reqs g'. list_pull_requests_resource W g a p r s = (Inr (ModelDumpJson l), reqs, g')
          \<longrightarrow> count l = int (length (pull_requests l)))
   \<and> (\<forall>l reqs g'. list_current_pull_requests_resource W g s = (Inr (ModelDumpJson l), reqs, g')
          \<longrightarrow> count l = int (length (pull_requests l)))
   \<and> (\<forall>resp kvs. h (fst (get_pull_requests V h c p r s)) = Answered resp \<and> is_success resp
          \<and> json_body resp = Some (JObj kvs) \<and> map_of kvs ''value'' = Some (JArr [])
        \<longrightarrow> snd (get_pull_requests V h c p r s) = Inr \<lparr>pull_requests = [], count = 0\<rparr>)"
proof -
  have 1: "\<forall>l. snd (get_pull_requests V h c p r s) = Inr l \<longrightarrow> count l = int (length (pull_requests l))"
    using get_pull_requests_Inr_count by blast
  have 2: "count (from_pull_requests prs) = int (length (pull_requests (from_pull_requests prs)))"
    by (simp add: from_pull_requests_def)
  have 3: "\<forall>l reqs g'. list_pull_requests_resource W g a p r s = (Inr (ModelDumpJson l), reqs, g')
          \<longrightarrow> count l = int (length (pull_requests l))"
    using list_pull_requests_resource_Inr get_pull_requests_Inr_count by blast
  have 4: "\<forall>l reqs g'. list_current_pull_requests_resource W g s = (Inr (ModelDumpJson l), reqs, g')
          \<longrightarrow> count l = int (length (pull_requests l))"
    using list_current_pull_requests_resource_Inr get_pull_requests_Inr_count by blast
  have 5: "snd (get_pull_requests V h c p r s) = Inr \<lparr>pull_requests = [], count = 0\<rparr>"
    if a: "h (fst (get_pull_requests V h c p r s)) = Answered resp \<and> is_success resp
          \<and> json_body resp = Some (JObj kvs) \<and> map_of kvs ''value'' = Some (JArr [])"
    for resp kvs
  proof -
    have "snd (get_pull_requests V h c p r s) =
          sbind (build_pr_list V [] []) (\<lambda>pr_list. Inr (from_pull_requests pr_list))"
      using a by (intro snd_get_pull_requests_array[where h = h and resp = resp and kvs = kvs]) simp_all
    then show ?thesis by (simp add: sbind_def from_pull_requests_def)
  qed
  from 1 2 3 4 5 show ?thesis by blast
qed

theorem count_is_length_witness:
  "\<exists>l. snd (get_pull_requests plain_pydantic
            (\<lambda>rq. Answered (answer_with (JObj [(''value'', JArr [mock_pr_data])])))
            ado_client_fixture ''testproj'' ''testrepo'' ''active'') = Inr l
       \<and> count l = int (length (pull_requests l)) \<and> count l = 1"
proof -
  let ?X = "snd (get_pull_requests plain_pydantic
            (\<lambda>rq. Answered (answer_with (JObj [(''value'', JArr [mock_pr_data])])))
            ado_client_fixture ''testproj'' ''testrepo'' ''active'')"
  have "case ?X of Inr l \<Rightarrow> count l = 1 | Inl e \<Rightarrow> False" by code_simp
  then obtain l where l: "?X = Inr l" "count l = 1" by (cases ?X) auto
  from count_is_length[where V = plain_pydantic
         and h = "\<lambda>rq. Answered (answer_with (JObj [(''value'', JArr [mock_pr_data])]))"
         and c = ado_client_fixture and p = "''testproj''" and r = "''testrepo''" and s = "''active''"]
  have "count l = int (length (pull_requests l))" using l(1) by blast
  with l show ?thesis by blast
qed

text \<open>
  Claim C1 at a failing input. Outside any git repository, with the organization
  \<open>configured\<close> in the settings, a call of \<open>list_pull_requests_resource\<close> for the
  organization \<open>requested\<close> sends its one request to \<open>configured\<close>: the handler takes its
  client from \<open>get_ado_client\<close> and never reads its \<open>organization\<close> argument.
\<close>

theorem organization_argument_ignored:
  "map req_url (fst (snd (list_pull_requests_resource configured_world initial_globals
                            ''requested'' ''proj'' ''repo'' ''active'')))
     = [''https://dev.azure.com/configured/proj/_apis/git/repositories/repo/pullrequests'']"
  by code_simp

text \<open>The same for every call: the result does not depend on the organization argument.\<close>

lemma list_pull_requests_resource_any_organization:
  "list_pull_requests_resource W g a p r s = list_pull_requests_resource W g a' p r s"
  by (simp add: list_pull_requests_resource_def)

text \<open>
  Claim C9. When the git subprocess exits with a non-zero status, is not found or times
  out, \<open>get_git_remote_url\<close> and \<open>detect_current_repo\<close> return \<open>None\<close>, and
  \<open>list_current_pull_requests_resource\<close> returns (it raises nothing, sends no request and
  leaves the state of the process as it was) the serialization of the JSON object with
  exactly the two keys \<open>error\<close> and \<open>suggestion\<close>, both strings.
\<close>

theorem detection_failure_structured_error:
  assumes "run_git W = CalledProcessError n \<or> run_git W = FileNotFoundError
           \<or> run_git W = TimeoutExpired"
  shows "get_git_remote_url (run_git W) = Inr None
       \<and> detect_current_repo (lib_urllib W) (run_git W) = Inr None
       \<and> list_current_pull_requests_resource W g s
           = (Inr (JsonDumps (JObj
                [(''error'', JStr ''Not in an Azure DevOps git repository''),
                 (''suggestion'', JStr (''Use explicit organization/project/repository parameters ''
                                        @ ''or run from an Azure DevOps git repository''))])),
              [], g)"
proof -
  have a: "get_git_remote_url (run_git W) = Inr None"
    using assms by (auto simp: get_git_remote_url_def)
  then have b: "detect_current_repo (lib_urllib W) (run_git W) = Inr None"
    by (simp add: detect_current_repo_def)
  then have "list_current_pull_requests_resource W g s = (Inr (JsonDumps error_response), [], g)"
    by (simp add: list_current_pull_requests_resource_def)
  with a b show ?thesis by (simp add: error_response_def)
qed

theorem detection_failure_structured_error_witness:
  "get_git_remote_url (run_git configured_world) = Inr None
       \<and> detect_current_repo (lib_urllib configured_world) (run_git configured_world) = Inr None
       \<and> list_current_pull_requests_resource configured_world initial_globals ''active''
           = (Inr (JsonDumps (JObj
                [(''error'', JStr ''Not in an Azure DevOps git repository''),
                 (''suggestion'', JStr (''Use explicit organization/project/repository parameters ''
                                        @ ''or run from an Azure DevOps git repository''))])),
              [], initial_globals)"
proof -
  have h: "run_git configured_world = CalledProcessError 1 \<or> run_git configured_world = FileNotFoundError
           \<or> run_git configured_world = TimeoutExpired"
    by (simp add: configured_world_def)
  show ?thesis by (rule detection_failure_structured_error[OF h])
qed

end
